theory Spec2Isabelle
  imports Complex_Main
begin

section \<open>Values of type double\<close>

text \<open>
  The program computes with C++ \<^verbatim>\<open>double\<close>, the binary64 format of IEEE 754. A double
  is modelled as a finite value, one of the two infinities, or not-a-number. An operation
  on finite values rounds its exact result to the nearest double, ties to the even
  significand, and overflows to an infinity. The special values follow IEEE 754:
  not-a-number is absorbing and compares false with everything, opposite infinities cancel
  to not-a-number, infinity times zero and zero over zero are not-a-number, and a non-zero
  finite value over zero is an infinity. Signed zeros are identified, so a quotient by
  zero takes the sign of its numerator.
\<close>

datatype dbl = Fin real | PInf | NInf | NaN

text \<open>The nearest integer, a tie going to the even one.\<close>

definition round_half_even :: "real \<Rightarrow> int" where
  "round_half_even a =
     (let f = \<lfloor>a\<rfloor>; d = a - of_int f
      in if d < 1 / 2 then f else if 1 / 2 < d then f + 1 else if even f then f else f + 1)"

text \<open>
  A positive value is scaled by powers of two until it lies below \<^verbatim>\<open>2^53\<close> and, as far
  as the smallest exponent allows, not below \<^verbatim>\<open>2^52\<close>; the second component is the weight
  of a unit of the scaled value, the spacing of the doubles around the value. The weight
  starts at 1 and is halved at most 1074 times: the spacing of the subnormal doubles is
  \<^verbatim>\<open>2^-1074\<close>.
\<close>

function scale_down :: "real \<Rightarrow> real \<Rightarrow> real \<times> real" where
  "scale_down a q = (if 2 ^ 53 \<le> a then scale_down (a / 2) (q * 2) else (a, q))"
  by pat_completeness auto
termination
  by (relation "measure (\<lambda>(a, q). nat \<lceil>a\<rceil>)") (auto, linarith)

function scale_up :: "real \<Rightarrow> real \<Rightarrow> nat \<Rightarrow> real \<times> real" where
  "scale_up a q k =
     (if a < 2 ^ 52 \<and> 0 < k then scale_up (a * 2) (q / 2) (k - 1) else (a, q))"
  by pat_completeness auto
termination
  by (relation "measure (\<lambda>(a, q, k). k)") auto

text \<open>
  The double nearest to a real: the scaled magnitude is rounded to an integer of at most
  53 bits and scaled back; a result of \<^verbatim>\<open>2^1024\<close> or more is an infinity.
\<close>

definition round_double :: "real \<Rightarrow> dbl" where
  "round_double x =
     (if x = 0 then Fin 0
      else
        (case scale_down \<bar>x\<bar> 1 of (a, q) \<Rightarrow>
          (case scale_up a q 1074 of (m, ulp) \<Rightarrow>
            (let r = of_int (round_half_even m) * ulp
             in if 2 ^ 1024 \<le> r then (if 0 < x then PInf else NInf)
                else Fin (if 0 < x then r else - r)))))"

fun is_finite :: "dbl \<Rightarrow> bool" where
  "is_finite (Fin x) = True"
| "is_finite PInf = False"
| "is_finite NInf = False"
| "is_finite NaN = False"

instantiation dbl :: "{uminus, plus, minus, times, inverse, ord}"
begin

fun uminus_dbl :: "dbl \<Rightarrow> dbl" where
  "uminus_dbl (Fin a) = Fin (- a)"
| "uminus_dbl PInf = NInf"
| "uminus_dbl NInf = PInf"
| "uminus_dbl NaN = NaN"

fun plus_dbl :: "dbl \<Rightarrow> dbl \<Rightarrow> dbl" where
  "plus_dbl (Fin a) (Fin b) = round_double (a + b)"
| "plus_dbl NaN y = NaN"
| "plus_dbl x NaN = NaN"
| "plus_dbl PInf NInf = NaN"
| "plus_dbl NInf PInf = NaN"
| "plus_dbl PInf y = PInf"
| "plus_dbl x PInf = PInf"
| "plus_dbl NInf y = NInf"
| "plus_dbl x NInf = NInf"

definition minus_dbl :: "dbl \<Rightarrow> dbl \<Rightarrow> dbl" where
  "minus_dbl x y = x + (- y)"

fun times_dbl :: "dbl \<Rightarrow> dbl \<Rightarrow> dbl" where
  "times_dbl (Fin a) (Fin b) = round_double (a * b)"
| "times_dbl NaN y = NaN"
| "times_dbl x NaN = NaN"
| "times_dbl PInf PInf = PInf"
| "times_dbl PInf NInf = NInf"
| "times_dbl NInf PInf = NInf"
| "times_dbl NInf NInf = PInf"
| "times_dbl PInf (Fin b) = (if b = 0 then NaN else if 0 < b then PInf else NInf)"
| "times_dbl NInf (Fin b) = (if b = 0 then NaN else if 0 < b then NInf else PInf)"
| "times_dbl (Fin a) PInf = (if a = 0 then NaN else if 0 < a then PInf else NInf)"
| "times_dbl (Fin a) NInf = (if a = 0 then NaN else if 0 < a then NInf else PInf)"

fun divide_dbl :: "dbl \<Rightarrow> dbl \<Rightarrow> dbl" where
  "divide_dbl (Fin a) (Fin b) =
     (if b = 0 then (if a = 0 then NaN else if 0 < a then PInf else NInf)
      else round_double (a / b))"
| "divide_dbl NaN y = NaN"
| "divide_dbl x NaN = NaN"
| "divide_dbl (Fin a) PInf = Fin 0"
| "divide_dbl (Fin a) NInf = Fin 0"
| "divide_dbl PInf (Fin b) = (if 0 \<le> b then PInf else NInf)"
| "divide_dbl NInf (Fin b) = (if 0 \<le> b then NInf else PInf)"
| "divide_dbl PInf y = NaN"
| "divide_dbl NInf y = NaN"

fun inverse_dbl :: "dbl \<Rightarrow> dbl" where
  "inverse_dbl (Fin a) = (if a = 0 then PInf else round_double (1 / a))"
| "inverse_dbl PInf = Fin 0"
| "inverse_dbl NInf = Fin 0"
| "inverse_dbl NaN = NaN"

fun less_dbl :: "dbl \<Rightarrow> dbl \<Rightarrow> bool" where
  "less_dbl (Fin a) (Fin b) = (a < b)"
| "less_dbl NaN y = False"
| "less_dbl x NaN = False"
| "less_dbl PInf y = False"
| "less_dbl x NInf = False"
| "less_dbl NInf y = True"
| "less_dbl x PInf = True"

fun less_eq_dbl :: "dbl \<Rightarrow> dbl \<Rightarrow> bool" where
  "less_eq_dbl (Fin a) (Fin b) = (a \<le> b)"
| "less_eq_dbl NaN y = False"
| "less_eq_dbl x NaN = False"
| "less_eq_dbl NInf y = True"
| "less_eq_dbl x PInf = True"
| "less_eq_dbl PInf y = False"
| "less_eq_dbl x NInf = False"

instance ..

end

text \<open>
  \<^verbatim>\<open>std::pow(x, i)\<close> for the non-negative integer exponents the program uses, as the
  correctly rounded power.
\<close>

fun dpow :: "dbl \<Rightarrow> nat \<Rightarrow> dbl" where
  "dpow x 0 = Fin 1"
| "dpow (Fin a) (Suc n) = round_double (a ^ Suc n)"
| "dpow PInf (Suc n) = PInf"
| "dpow NInf (Suc n) = (if even (Suc n) then PInf else NInf)"
| "dpow NaN (Suc n) = NaN"

section \<open>Errors\<close>

text \<open>
  The diagnostics printed on the error stream, by the data they are formatted from:
  the run, the wall letter and the bar.
\<close>

datatype message =
    TofRunNotFound int char int
  | PsdCannotFindRun int char int
  | PsdFailedToOpenDatabase

text \<open>
  The ways a call does not return a value: \<^verbatim>\<open>exit(status)\<close> after a message,
  a \<^verbatim>\<open>std::vector\<close> read at an index that is not below its size, the type error of
  \<^verbatim>\<open>get<double>()\<close> on a missing JSON array element, a call through an interpolator
  pointer that was never set, and the conversion to \<^verbatim>\<open>int\<close> of a double whose truncation
  is no \<^verbatim>\<open>int\<close>.
\<close>

datatype error =
    Exit int message
  | VectorOutOfRange "dbl list" nat
  | JsonTypeError
  | NullInterpolator int
  | IntConversionUndefined

section \<open>The position calibration store\<close>

text \<open>
  Modelled from the spec: the header declaring the member \<^verbatim>\<open>param\<close> of
  \<^verbatim>\<open>NWPositionCalibParamReader\<close> is not among the sources. The store of the spec binds a
  scalar to a (unit, key) pair and returns zero for a pair that was never set. In the code
  \<^verbatim>\<open>load\<close> assigns through \<^verbatim>\<open>param[{bar, name}]\<close> and \<^verbatim>\<open>get\<close> reads through the same
  subscript of the same non-const member: a subscript that creates the entry it is asked
  for when it is missing, value-initialised to zero.
\<close>

type_synonym param_store = "(int \<times> string) \<rightharpoonup> dbl"

text \<open>
  \<^verbatim>\<open>NWPositionCalibParamReader::get\<close>: the subscript returns the entry, creating it first
  when it is missing. The store after the call is returned with the value.
\<close>

definition get :: "param_store \<Rightarrow> int \<Rightarrow> string \<Rightarrow> dbl \<times> param_store" where
  "get param bar par =
     (case param (bar, par) of
        Some v \<Rightarrow> (v, param)
      | None \<Rightarrow> (Fin 0, param((bar, par) \<mapsto> Fin 0)))"

text \<open>A sequence of \<^verbatim>\<open>get\<close> calls, each on the store the previous one left.\<close>

fun gets :: "param_store \<Rightarrow> (int \<times> string) list \<Rightarrow> param_store" where
  "gets param [] = param"
| "gets param ((bar, par) # ks) = gets (snd (get param bar par)) ks"

text \<open>
  The initialisation of an \<^verbatim>\<open>int\<close> from a double truncates toward zero; it is undefined
  when the truncated value is not a 32-bit \<^verbatim>\<open>int\<close>.
\<close>

fun double_to_int :: "dbl \<Rightarrow> error + int" where
  "double_to_int (Fin x) =
     (if - 2147483649 < x \<and> x < 2147483648
      then Inr (if 0 \<le> x then \<lfloor>x\<rfloor> else \<lceil>x\<rceil>)
      else Inl IntConversionUndefined)"
| "double_to_int PInf = Inl IntConversionUndefined"
| "double_to_int NInf = Inl IntConversionUndefined"
| "double_to_int NaN = Inl IntConversionUndefined"

text \<open>
  \<^verbatim>\<open>get_position\<close> of calibrate.cpp, on the position calibration reader. The two
  parameters are read into locals declared \<^verbatim>\<open>int\<close>, which are converted back to double
  in the arithmetic.
\<close>

definition get_position ::
  "param_store \<Rightarrow> int \<Rightarrow> dbl \<Rightarrow> dbl \<Rightarrow> error + (dbl \<times> param_store)" where
  "get_position nw_pcalib bar time_L time_R =
     (case get nw_pcalib bar ''p0'' of (v0, s0) \<Rightarrow>
       (case double_to_int v0 of
          Inl e \<Rightarrow> Inl e
        | Inr p0 \<Rightarrow>
           (case get s0 bar ''p1'' of (v1, s1) \<Rightarrow>
             (case double_to_int v1 of
                Inl e \<Rightarrow> Inl e
              | Inr p1 \<Rightarrow>
                  Inr (Fin (of_int p0) + Fin (of_int p1) * (time_L - time_R), s1)))))"

section \<open>Run-indexed calibration series\<close>

text \<open>
  One record of a bar's series in a run-indexed JSON file: \<^verbatim>\<open>run_range[0]\<close>,
  \<^verbatim>\<open>run_range[1]\<close> as the \<^verbatim>\<open>int\<close> values the readers take them as, and the rest of the
  record. A series is the list of the records in the order of the JSON array. A file is
  the list of its (bar, series) items in the order \<^verbatim>\<open>items()\<close> yields them, the key
  already converted by \<^verbatim>\<open>std::stoi\<close>.
\<close>

record 'p ValidityRecord =
  run_start :: int
  run_end :: int
  payload :: 'p

text \<open>
  \<^verbatim>\<open>NWPositionCalibParamReader::load\<close>, the loop over one bar's records (lines 65-74):
  the payload is the pair \<^verbatim>\<open>parameters[0]\<close>, \<^verbatim>\<open>parameters[1]\<close>; the loop breaks at the
  first record whose range holds the run.
\<close>

fun load_bar_entry ::
  "int \<Rightarrow> int \<Rightarrow> (dbl \<times> dbl) ValidityRecord list \<Rightarrow> param_store \<Rightarrow> param_store" where
  "load_bar_entry run b [] param = param"
| "load_bar_entry run b (run_range_entry # rest) param =
     (if run \<ge> run_start run_range_entry \<and> run \<le> run_end run_range_entry
      then param((b, ''p0'') \<mapsto> fst (payload run_range_entry),
                 (b, ''p1'') \<mapsto> snd (payload run_range_entry))
      else load_bar_entry run b rest param)"

text \<open>
  The loop over the items of the file (lines 63-75). The rest of \<^verbatim>\<open>load\<close> stores the
  rows of a second file, the basis vectors, under the names \<^verbatim>\<open>vec + "0"\<close>, \<^verbatim>\<open>vec + "1"\<close>
  and \<^verbatim>\<open>vec + "2"\<close>; it takes no part in the resolution of a run.
\<close>

fun load_pcalib ::
  "int \<Rightarrow> (int \<times> (dbl \<times> dbl) ValidityRecord list) list \<Rightarrow> param_store \<Rightarrow> param_store" where
  "load_pcalib run [] param = param"
| "load_pcalib run ((b, bar_entry) # items) param =
     load_pcalib run items (load_bar_entry run b bar_entry param)"

text \<open>
  \<^verbatim>\<open>NWTimeOfFlightCalibParamReader::load\<close>, the loop over one bar's records
  (lines 164-172): a record whose range does not hold the run is skipped; the first other
  one sets the bar's offset and \<^verbatim>\<open>found\<close>. The payload is \<^verbatim>\<open>tof_offset\<close>.
\<close>

fun load_bar_info ::
  "int \<Rightarrow> int \<Rightarrow> dbl ValidityRecord list \<Rightarrow> (int \<rightharpoonup> dbl) \<Rightarrow> bool \<times> (int \<rightharpoonup> dbl)" where
  "load_bar_info run b [] tof_offset = (False, tof_offset)"
| "load_bar_info run b (par_info # rest) tof_offset =
     (if run < run_start par_info \<or> run > run_end par_info
      then load_bar_info run b rest tof_offset
      else (True, tof_offset(b \<mapsto> payload par_info)))"

text \<open>
  The loop over the bars of the database (lines 162-179). The state is the member
  \<^verbatim>\<open>tof_offset\<close> and the messages written to the error stream so far; a bar that is not
  found adds its message and the loop goes on.
\<close>

fun tof_load ::
  "char \<Rightarrow> int \<Rightarrow> (int \<times> dbl ValidityRecord list) list \<Rightarrow>
   (int \<rightharpoonup> dbl) \<times> message list \<Rightarrow> (int \<rightharpoonup> dbl) \<times> message list" where
  "tof_load AB run [] st = st"
| "tof_load AB run ((b, bar_info) # items) (tof_offset, cerr) =
     (case load_bar_info run b bar_info tof_offset of
        (found, tof_offset') \<Rightarrow>
          tof_load AB run items
            (tof_offset', if found then cerr else cerr @ [TofRunNotFound run AB b]))"

section \<open>The pulse shape discrimination reader\<close>

text \<open>
  The parameter block of one record of the pulse shape discrimination database, by its
  JSON keys (the three \<^verbatim>\<open>pca_\<close> keys are prefixed, the reader has members of the same
  names).
\<close>

record BarParams =
  cline_L :: "dbl list"
  g_cfast_L :: "dbl list"
  n_cfast_L :: "dbl list"
  cline_R :: "dbl list"
  g_cfast_R :: "dbl list"
  n_cfast_R :: "dbl list"
  x_switch_neutron :: dbl
  centroid_pos_x :: "dbl list"
  g_centroid_L :: "dbl list"
  n_centroid_L :: "dbl list"
  g_centroid_R :: "dbl list"
  n_centroid_R :: "dbl list"
  json_pca_mean :: "dbl list"
  json_pca_components :: "dbl list list"
  json_pca_xpeaks :: "dbl list"

text \<open>
  \<^verbatim>\<open>get_bar_params\<close>: the loop over the bar's records (lines 392-400), \<^verbatim>\<open>None\<close> for the
  null \<^verbatim>\<open>params\<close> it starts with.
\<close>

fun find_run_range :: "int \<Rightarrow> 'p ValidityRecord list \<Rightarrow> 'p ValidityRecord option" where
  "find_run_range run [] = None"
| "find_run_range run (run_range_params # rest) =
     (if run \<ge> run_start run_range_params \<and> run \<le> run_end run_range_params
      then Some run_range_params
      else find_run_range run rest)"

text \<open>
  The database maps a bar to its series; a bar that is no key of the JSON object has
  nothing to iterate over. With nothing found the method prints its message and calls
  \<^verbatim>\<open>exit(1)\<close>. The method returns the record as the JSON value it is, whatever it
  holds beside the range.
\<close>

definition get_bar_params ::
  "char \<Rightarrow> (int \<rightharpoonup> 'p ValidityRecord list) \<Rightarrow> int \<Rightarrow> int \<Rightarrow> error + 'p ValidityRecord" where
  "get_bar_params AB database run bar =
     (case find_run_range run (case database bar of None \<Rightarrow> [] | Some bar_params \<Rightarrow> bar_params) of
        None \<Rightarrow> Inl (Exit 1 (PsdCannotFindRun run AB bar))
      | Some params \<Rightarrow> Inr params)"

text \<open>\<^verbatim>\<open>polynomial\<close>: the sum of \<^verbatim>\<open>params[i] * pow(x, i)\<close>, accumulated from zero.\<close>

fun polynomial_loop :: "dbl \<Rightarrow> dbl list \<Rightarrow> nat \<Rightarrow> dbl \<Rightarrow> dbl" where
  "polynomial_loop x [] i y = y"
| "polynomial_loop x (p # ps) i y = polynomial_loop x ps (Suc i) (y + p * dpow x i)"

definition polynomial :: "dbl \<Rightarrow> dbl list \<Rightarrow> dbl" where
  "polynomial x params = polynomial_loop x params 0 (Fin 0)"

text \<open>
  \<^verbatim>\<open>get_neutron_linear_params\<close> reads \<^verbatim>\<open>quad[0]\<close>, \<^verbatim>\<open>quad[1]\<close> and \<^verbatim>\<open>quad[2]\<close> of a
  \<^verbatim>\<open>std::vector\<close> without a check of its size. A read at an index that is not below the
  size is the error \<open>VectorOutOfRange\<close> with the vector and the index. The first
  statement reads \<^verbatim>\<open>quad[1]\<close> and \<^verbatim>\<open>quad[2]\<close>: the index is 1 for a vector of at most one
  element and 2 for a vector of two.
\<close>

definition get_neutron_linear_params :: "dbl \<Rightarrow> dbl list \<Rightarrow> error + dbl list" where
  "get_neutron_linear_params x_switch quad =
     (if length quad \<le> 1 then Inl (VectorOutOfRange quad 1)
      else if length quad \<le> 2 then Inl (VectorOutOfRange quad 2)
      else
        (let lin1 = quad ! 1 + Fin 2 * quad ! 2 * x_switch;
             lin0 = quad ! 0 + quad ! 1 * x_switch + quad ! 2 * dpow x_switch 2
                    - lin1 * x_switch
         in Inr [lin0, lin1]))"

text \<open>
  The sampling grid of \<^verbatim>\<open>fast_total_interpolation\<close>: the loop
  \<^verbatim>\<open>for (total = -20.0; total <= 4020.0; total += 20.0)\<close>.
\<close>

function totals_from :: "real \<Rightarrow> real list" where
  "totals_from tot = (if tot \<le> 4020 then tot # totals_from (tot + 20) else [])"
  by pat_completeness auto
termination
  by (relation "measure (\<lambda>tot. nat \<lceil>4040 - tot\<rceil>)") (auto, linarith)

definition totals :: "dbl list" where
  "totals = map Fin (totals_from (- 20))"

text \<open>The loops that fill \<^verbatim>\<open>fasts\<close> for a gamma curve (lines 418-421 and 436-439).\<close>

definition gamma_fasts :: "dbl list \<Rightarrow> dbl list \<Rightarrow> dbl list \<Rightarrow> dbl list" where
  "gamma_fasts cline g_cfast ts = map (\<lambda>tot. polynomial tot cline + polynomial tot g_cfast) ts"

text \<open>
  The loops that fill \<^verbatim>\<open>fasts\<close> for a neutron curve (lines 425-432 and 443-450).
  \<^verbatim>\<open>_params\<close> is a reference to the array \<^verbatim>\<open>n_cfast\<close> inside \<^verbatim>\<open>params\<close>, so the assignment
  at a grid point at or above the switch replaces that array for all later grid points.
  The call goes through the JSON overload of \<^verbatim>\<open>get_neutron_linear_params\<close>, which
  copies the array into a vector for the vector overload. The array is threaded through
  the loop and returned with the samples.
\<close>

fun neutron_fasts ::
  "dbl \<Rightarrow> dbl list \<Rightarrow> dbl list \<Rightarrow> dbl list \<Rightarrow> error + (dbl list \<times> dbl list)" where
  "neutron_fasts x_switch cline n_cfast [] = Inr ([], n_cfast)"
| "neutron_fasts x_switch cline n_cfast (tot # rest) =
     (case (if tot \<ge> x_switch then get_neutron_linear_params x_switch n_cfast
            else Inr n_cfast) of
        Inl e \<Rightarrow> Inl e
      | Inr n_cfast' \<Rightarrow>
         (case neutron_fasts x_switch cline n_cfast' rest of
            Inl e \<Rightarrow> Inl e
          | Inr (fasts, n_last) \<Rightarrow>
              Inr ((polynomial tot cline + polynomial tot n_cfast') # fasts, n_last)))"

text \<open>
  A curve is what \<^verbatim>\<open>Eval\<close> of a \<^verbatim>\<open>ROOT::Math::Interpolator\<close> computes. The interpolator
  is a library class: its constructor, from the sample points to the curve, is a
  parameter of the model.
\<close>

type_synonym curve = "dbl \<Rightarrow> dbl"
type_synonym interpolator = "dbl list \<Rightarrow> dbl list \<Rightarrow> curve"

text \<open>
  \<^verbatim>\<open>fast_total_interpolation\<close>: the four curves in the order gamma left, neutron left,
  gamma right, neutron right, and the parameter block as the neutron loops leave it.
\<close>

definition fast_total_interpolation ::
  "interpolator \<Rightarrow> BarParams \<Rightarrow> error + ((curve \<times> curve \<times> curve \<times> curve) \<times> BarParams)" where
  "fast_total_interpolation Interpolator params =
     (let gamma_L = Interpolator totals (gamma_fasts (cline_L params) (g_cfast_L params) totals)
      in case neutron_fasts (x_switch_neutron params) (cline_L params) (n_cfast_L params) totals of
           Inl e \<Rightarrow> Inl e
         | Inr (fasts_L, n_L) \<Rightarrow>
            (let params1 = params\<lparr>n_cfast_L := n_L\<rparr>;
                 neutron_L = Interpolator totals fasts_L;
                 gamma_R = Interpolator totals
                             (gamma_fasts (cline_R params1) (g_cfast_R params1) totals)
             in case neutron_fasts (x_switch_neutron params1) (cline_R params1)
                       (n_cfast_R params1) totals of
                  Inl e \<Rightarrow> Inl e
                | Inr (fasts_R, n_R) \<Rightarrow>
                    Inr ((gamma_L, neutron_L, gamma_R, Interpolator totals fasts_R),
                         params1\<lparr>n_cfast_R := n_R\<rparr>)))"

text \<open>
  Reading the elements \<^verbatim>\<open>0 .. n - 1\<close> of a JSON array with \<^verbatim>\<open>get<double>()\<close>: an element
  the array does not have is null, and the conversion of null throws.
\<close>

definition json_doubles :: "nat \<Rightarrow> dbl list \<Rightarrow> error + dbl list" where
  "json_doubles n arr = (if n \<le> length arr then Inr (take n arr) else Inl JsonTypeError)"

text \<open>
  \<^verbatim>\<open>centroid_interpolation\<close>: the four centroid curves in the order gamma left, neutron
  left, gamma right, neutron right, each through as many samples as \<^verbatim>\<open>centroid_pos_x\<close> has.
\<close>

definition centroid_interpolation ::
  "interpolator \<Rightarrow> BarParams \<Rightarrow> error + (curve \<times> curve \<times> curve \<times> curve)" where
  "centroid_interpolation Interpolator params =
     (let pos_x = centroid_pos_x params; n = length pos_x
      in case json_doubles n (g_centroid_L params) of Inl e \<Rightarrow> Inl e | Inr gl \<Rightarrow>
        (case json_doubles n (n_centroid_L params) of Inl e \<Rightarrow> Inl e | Inr nl \<Rightarrow>
          (case json_doubles n (g_centroid_R params) of Inl e \<Rightarrow> Inl e | Inr gr \<Rightarrow>
            (case json_doubles n (n_centroid_R params) of Inl e \<Rightarrow> Inl e | Inr nr \<Rightarrow>
               Inr (Interpolator pos_x gl, Interpolator pos_x nl,
                    Interpolator pos_x gr, Interpolator pos_x nr)))))"

text \<open>
  \<^verbatim>\<open>process_pca\<close>: the mean, the two rows of the component matrix and the two peaks.
\<close>

definition json_pair :: "dbl list \<Rightarrow> error + (dbl \<times> dbl)" where
  "json_pair arr = (case arr of a # b # _ \<Rightarrow> Inr (a, b) | _ \<Rightarrow> Inl JsonTypeError)"

definition process_pca ::
  "BarParams \<Rightarrow> error + ((dbl \<times> dbl) \<times> ((dbl \<times> dbl) \<times> (dbl \<times> dbl)) \<times> (dbl \<times> dbl))" where
  "process_pca params =
     (case json_pair (json_pca_mean params) of Inl e \<Rightarrow> Inl e | Inr mean \<Rightarrow>
       (case json_pca_components params of
          r0 # r1 # _ \<Rightarrow>
            (case json_pair r0 of Inl e \<Rightarrow> Inl e | Inr row0 \<Rightarrow>
              (case json_pair r1 of Inl e \<Rightarrow> Inl e | Inr row1 \<Rightarrow>
                (case json_pair (json_pca_xpeaks params) of Inl e \<Rightarrow> Inl e | Inr xpeaks \<Rightarrow>
                   Inr (mean, (row0, row1), xpeaks))))
        | [r0] \<Rightarrow> (case json_pair r0 of Inl e \<Rightarrow> Inl e | Inr row0 \<Rightarrow> Inl JsonTypeError)
        | [] \<Rightarrow> Inl JsonTypeError))"

text \<open>
  Modelled from the spec: the header declaring the members of
  \<^verbatim>\<open>NWPulseShapeDiscriminationParamReader\<close> is not among the sources. Per detector unit
  the reader holds what the spec calls the per-unit PID model: the four fast-versus-total
  curves, the four centroid curves, the mean, the rotation matrix and the two peaks. A
  bar that was never loaded has no model and its interpolator pointers are null.
\<close>

record PerUnitPIDModel =
  gamma_fast_total_L :: curve
  neutron_fast_total_L :: curve
  gamma_fast_total_R :: curve
  neutron_fast_total_R :: curve
  gamma_vpsd_L :: curve
  neutron_vpsd_L :: curve
  gamma_vpsd_R :: curve
  neutron_vpsd_R :: curve
  pca_mean :: "dbl \<times> dbl"
  pca_components :: "(dbl \<times> dbl) \<times> (dbl \<times> dbl)"
  pca_xpeaks :: "dbl \<times> dbl"

type_synonym psd_reader = "int \<rightharpoonup> PerUnitPIDModel"

text \<open>The body of the loop of \<^verbatim>\<open>load\<close> after \<^verbatim>\<open>get_bar_params\<close> (lines 529-531).\<close>

definition build_bar :: "interpolator \<Rightarrow> BarParams \<Rightarrow> error + PerUnitPIDModel" where
  "build_bar Interpolator params =
     (case fast_total_interpolation Interpolator params of
        Inl e \<Rightarrow> Inl e
      | Inr ((gl, nl, gr, nr), params') \<Rightarrow>
         (case centroid_interpolation Interpolator params' of
            Inl e \<Rightarrow> Inl e
          | Inr (vgl, vnl, vgr, vnr) \<Rightarrow>
             (case process_pca params' of
                Inl e \<Rightarrow> Inl e
              | Inr (mean, components, xpeaks) \<Rightarrow>
                  Inr \<lparr>gamma_fast_total_L = gl, neutron_fast_total_L = nl,
                       gamma_fast_total_R = gr, neutron_fast_total_R = nr,
                       gamma_vpsd_L = vgl, neutron_vpsd_L = vnl,
                       gamma_vpsd_R = vgr, neutron_vpsd_R = vnr,
                       pca_mean = mean, pca_components = components,
                       pca_xpeaks = xpeaks\<rparr>)))"

text \<open>The loop of \<^verbatim>\<open>load\<close> over the bars.\<close>

fun load_bars ::
  "interpolator \<Rightarrow> char \<Rightarrow> (int \<rightharpoonup> BarParams ValidityRecord list) \<Rightarrow> int \<Rightarrow> int list \<Rightarrow>
   psd_reader \<Rightarrow> error + psd_reader" where
  "load_bars Interpolator AB database run [] reader = Inr reader"
| "load_bars Interpolator AB database run (bar # bars) reader =
     (case get_bar_params AB database run bar of
        Inl e \<Rightarrow> Inl e
      | Inr params \<Rightarrow>
         (case build_bar Interpolator (payload params) of
            Inl e \<Rightarrow> Inl e
          | Inr model \<Rightarrow>
              load_bars Interpolator AB database run bars (reader(bar \<mapsto> model))))"

text \<open>
  \<^verbatim>\<open>NWPulseShapeDiscriminationParamReader::load\<close>: the database file is read
  (\<^verbatim>\<open>exit(1)\<close> when it cannot be opened, \<open>None\<close> here), then the bars 1 to 24 that the
  constructor put into \<^verbatim>\<open>bars\<close> are loaded in that order.
\<close>

definition psd_load ::
  "interpolator \<Rightarrow> char \<Rightarrow> (int \<rightharpoonup> BarParams ValidityRecord list) option \<Rightarrow> int \<Rightarrow>
   psd_reader \<Rightarrow> error + psd_reader" where
  "psd_load Interpolator AB database_file run reader =
     (case database_file of
        None \<Rightarrow> Inl (Exit 1 PsdFailedToOpenDatabase)
      | Some database \<Rightarrow> load_bars Interpolator AB database run [1..24] reader)"

section \<open>The particle identification transform\<close>

text \<open>The condition of the first statement of \<^verbatim>\<open>get_psd\<close> (lines 144-147).\<close>

definition bad_data :: "dbl \<Rightarrow> dbl \<Rightarrow> dbl \<Rightarrow> dbl \<Rightarrow> dbl \<Rightarrow> bool" where
  "bad_data total_L total_R fast_L fast_R pos \<longleftrightarrow>
     total_L < Fin 0 \<or> total_R < Fin 0 \<or> fast_L < Fin 0 \<or> fast_R < Fin 0
     \<or> total_L > Fin 4097 \<or> total_R > Fin 4097 \<or> fast_L > Fin 4097 \<or> fast_R > Fin 4097
     \<or> pos < Fin (- 120) \<or> pos > Fin 120"

text \<open>
  Lines 152-178 of \<^verbatim>\<open>get_psd\<close>: the charge-domain normalisation, the position
  correction, the projection on the gamma-to-neutron vector and its rotation by 90
  degrees, and the subtraction of the mean. The names are rebound where the source
  assigns to a variable again.
\<close>

definition psd_xy :: "PerUnitPIDModel \<Rightarrow> dbl \<Rightarrow> dbl \<Rightarrow> dbl \<Rightarrow> dbl \<Rightarrow> dbl \<Rightarrow> dbl \<times> dbl" where
  "psd_xy m total_L total_R fast_L fast_R pos =
     (let gamma_L = gamma_fast_total_L m total_L;
          neutron_L = neutron_fast_total_L m total_L;
          vpsd_L = (fast_L - gamma_L) / (neutron_L - gamma_L);
          gamma_R = gamma_fast_total_R m total_R;
          neutron_R = neutron_fast_total_R m total_R;
          vpsd_R = (fast_R - gamma_R) / (neutron_R - gamma_R);
          gamma_L = gamma_vpsd_L m pos;
          neutron_L = neutron_vpsd_L m pos;
          gamma_R = gamma_vpsd_R m pos;
          neutron_R = neutron_vpsd_R m pos;
          xy = (vpsd_L - gamma_L, vpsd_R - gamma_R);
          gn_vec = (neutron_L - gamma_L, neutron_R - gamma_R);
          gn_rot90 = (- snd gn_vec, fst gn_vec);
          x = fst xy * fst gn_vec + snd xy * snd gn_vec;
          x = x / (fst gn_vec * fst gn_vec + snd gn_vec * snd gn_vec);
          y = fst xy * fst gn_rot90 + snd xy * snd gn_rot90;
          y = y / (fst gn_rot90 * fst gn_rot90 + snd gn_rot90 * snd gn_rot90);
          x = x - fst (pca_mean m);
          y = y - snd (pca_mean m)
      in (x, y))"

text \<open>
  Lines 179-188: the product with the component matrix is computed into \<^verbatim>\<open>pca_x\<close> and
  \<^verbatim>\<open>pca_y\<close>, and the returned pair is formed from \<^verbatim>\<open>x\<close>, \<^verbatim>\<open>y\<close> and the peaks.
\<close>

definition psd_transform ::
  "PerUnitPIDModel \<Rightarrow> dbl \<Rightarrow> dbl \<Rightarrow> dbl \<Rightarrow> dbl \<Rightarrow> dbl \<Rightarrow> dbl \<times> dbl" where
  "psd_transform m total_L total_R fast_L fast_R pos =
     (case psd_xy m total_L total_R fast_L fast_R pos of
        (x, y) \<Rightarrow>
          (let pca_matrix = pca_components m;
               pca_x = fst (fst pca_matrix) * x + snd (fst pca_matrix) * y;
               pca_y = fst (snd pca_matrix) * x + snd (snd pca_matrix) * y;
               xpeaks = pca_xpeaks m;
               ppsd = (x - fst xpeaks) / (snd xpeaks - fst xpeaks);
               ppsd_perp = y
           in (ppsd, ppsd_perp)))"

text \<open>
  \<^verbatim>\<open>get_psd\<close>: the range check first; then the curves of the bar are evaluated, which
  for a bar without a model is a call through a null pointer.
\<close>

definition get_psd ::
  "psd_reader \<Rightarrow> int \<Rightarrow> dbl \<Rightarrow> dbl \<Rightarrow> dbl \<Rightarrow> dbl \<Rightarrow> dbl \<Rightarrow> error + (dbl \<times> dbl)" where
  "get_psd psd_reader bar total_L total_R fast_L fast_R pos =
     (if bad_data total_L total_R fast_L fast_R pos
      then Inr (Fin (- 9999), Fin (- 9999))
      else
        (case psd_reader bar of
           None \<Rightarrow> Inl (NullInterpolator bar)
         | Some m \<Rightarrow> Inr (psd_transform m total_L total_R fast_L fast_R pos)))"

section \<open>Evaluating the rounding\<close>

declare scale_down.simps [simp del] scale_up.simps [simp del]

lemma scale_down_below: "a < 2 ^ 53 \<Longrightarrow> scale_down a q = (a, q)"
  by (subst scale_down.simps) simp

lemma scale_down_step: "2 ^ 53 \<le> a \<Longrightarrow> scale_down a q = scale_down (a / 2) (q * 2)"
  by (subst scale_down.simps) simp

lemma scale_up_stop: "2 ^ 52 \<le> a \<or> k = 0 \<Longrightarrow> scale_up a q k = (a, q)"
  by (subst scale_up.simps) auto

lemma scale_up_step:
  "a < 2 ^ 52 \<Longrightarrow> 0 < k \<Longrightarrow> scale_up a q k = scale_up (a * 2) (q / 2) (k - 1)"
  by (subst scale_up.simps) simp

lemma round_double_zero [simp]: "round_double 0 = Fin 0"
  by (simp add: round_double_def)

lemmas round_double_eval =
  round_double_def scale_down_below scale_down_step scale_up_stop scale_up_step
  round_half_even_def Let_def

section \<open>The position calibration\<close>

text \<open>
  C2. The claim: for every unit and all times the position calibration returns
  \<open>p0 + p1 * (time_L - time_R)\<close> with the scalars the store's \<^verbatim>\<open>get\<close> resolves, so that
  a store with \<open>p0 = 5.0\<close> and \<open>p1 = 0.02\<close> gives \<open>5.4\<close> at times 100 and 80. The code
  reads both scalars into \<^verbatim>\<open>int\<close> locals: at this input it returns 5, not 5.4.
\<close>

theorem get_position_truncates_parameters:
  "map_sum id fst
     (get_position [(1, ''p0'') \<mapsto> Fin 5, (1, ''p1'') \<mapsto> Fin (2 / 100)] 1 (Fin 100) (Fin 80))
     = Inr (Fin 5)
   \<and> Fin 5 \<noteq> Fin (5 + 2 / 100 * (100 - 80))"
  by (simp add: get_position_def get_def minus_dbl_def round_double_eval)

section \<open>The store\<close>

lemma load_bar_entry_skip:
  "\<forall>e\<in>set pre. \<not> (run_start e \<le> run \<and> run \<le> run_end e) \<Longrightarrow>
   load_bar_entry run b (pre @ rest) param = load_bar_entry run b rest param"
  by (induction pre) auto

lemma load_bar_entry_other_bar:
  "b' \<noteq> b \<Longrightarrow> load_bar_entry run b series param (b', k) = param (b', k)"
  by (induction series) auto

lemma load_bar_entry_no_match:
  "\<forall>e\<in>set series. \<not> (run_start e \<le> run \<and> run \<le> run_end e) \<Longrightarrow>
   load_bar_entry run b series param = param"
  by (induction series) auto

lemma load_pcalib_other_bar:
  "u \<notin> fst ` set items \<Longrightarrow> load_pcalib run items param (u, k) = param (u, k)"
proof (induction items arbitrary: param)
  case Nil
  then show ?case by simp
next
  case (Cons a items)
  obtain b s where a: "a = (b, s)" by (cases a)
  with Cons.prems have "b \<noteq> u" "u \<notin> fst ` set items" by auto
  then show ?case
    using Cons.IH [of "load_bar_entry run b s param"]
      load_bar_entry_other_bar [of u b run s param k] a
    by simp
qed

lemma load_pcalib_unresolved:
  "\<forall>(b, series)\<in>set items. b = u \<longrightarrow>
      (\<forall>e\<in>set series. \<not> (run_start e \<le> run \<and> run \<le> run_end e)) \<Longrightarrow>
   load_pcalib run items param (u, k) = param (u, k)"
proof (induction items arbitrary: param)
  case Nil
  then show ?case by simp
next
  case (Cons a items)
  obtain b s where a: "a = (b, s)" by (cases a)
  have "load_bar_entry run b s param (u, k) = param (u, k)"
  proof (cases "b = u")
    case True
    then show ?thesis using Cons.prems a by (simp add: load_bar_entry_no_match)
  next
    case False
    then show ?thesis by (simp add: load_bar_entry_other_bar)
  qed
  then show ?case using Cons a by simp
qed

text \<open>
  C4. For every unit and key, when the pair was never populated, \<^verbatim>\<open>get\<close> returns the
  value 0 (and leaves the pair in the store, with that value); \<^verbatim>\<open>get\<close> has no error
  result. In particular this is so after the run-range loop of \<^verbatim>\<open>load\<close>, from an empty
  store, for a unit none of whose records holds the run.
\<close>

theorem get_unpopulated_zero:
  "(param (unit, key) = None \<longrightarrow>
      get param unit key = (Fin 0, param((unit, key) \<mapsto> Fin 0)))
   \<and> ((\<forall>(b, series)\<in>set items. b = unit \<longrightarrow>
          (\<forall>e\<in>set series. \<not> (run_start e \<le> run \<and> run \<le> run_end e))) \<longrightarrow>
       fst (get (load_pcalib run items Map.empty) unit key) = Fin 0)"
proof (intro conjI impI)
  assume "param (unit, key) = None"
  then show "get param unit key = (Fin 0, param((unit, key) \<mapsto> Fin 0))"
    by (simp add: get_def)
next
  assume "\<forall>(b, series)\<in>set items. b = unit \<longrightarrow>
          (\<forall>e\<in>set series. \<not> (run_start e \<le> run \<and> run \<le> run_end e))"
  then have "load_pcalib run items Map.empty (unit, key) = None"
    using load_pcalib_unresolved [of items unit run Map.empty key] by simp
  then show "fst (get (load_pcalib run items Map.empty) unit key) = Fin 0"
    by (simp add: get_def)
qed

theorem get_unpopulated_zero_witness:
  "get [(1, ''p0'') \<mapsto> Fin 5] 2 ''p0'' = (Fin 0, [(1, ''p0'') \<mapsto> Fin 5, (2, ''p0'') \<mapsto> Fin 0])
   \<and> fst (get (load_pcalib 100
                 [(1, [\<lparr>run_start = 1, run_end = 10, payload = (Fin 5, Fin 2)\<rparr>]),
                  (2, [\<lparr>run_start = 1, run_end = 200, payload = (Fin 7, Fin 3)\<rparr>])]
                 Map.empty) 1 ''p0'') = Fin 0"
  using get_unpopulated_zero [of "[(1, ''p0'') \<mapsto> Fin 5]" 2 "''p0''"
      "[(1, [\<lparr>run_start = 1, run_end = 10, payload = (Fin 5, Fin 2)\<rparr>]),
        (2, [\<lparr>run_start = 1, run_end = 200, payload = (Fin 7, Fin 3)\<rparr>])]" 100]
    get_unpopulated_zero [of Map.empty 1 "''p0''"
      "[(1, [\<lparr>run_start = 1, run_end = 10, payload = (Fin 5, Fin 2)\<rparr>]),
        (2, [\<lparr>run_start = 1, run_end = 200, payload = (Fin 7, Fin 3)\<rparr>])]" 100]
  by simp

lemma gets_keeps_entry:
  "param k = Some v \<Longrightarrow> gets param ks k = Some v"
proof (induction ks arbitrary: param)
  case Nil
  then show ?case by simp
next
  case (Cons a ks)
  obtain bar par where a: "a = (bar, par)" by (cases a)
  have "snd (get param bar par) k = Some v"
    using Cons.prems by (auto simp: get_def split: option.splits)
  then show ?case using Cons.IH a by simp
qed

lemma gets_new_entry_zero:
  "param k = None \<Longrightarrow> gets param ks k = None \<or> gets param ks k = Some (Fin 0)"
proof (induction ks arbitrary: param)
  case Nil
  then show ?case by simp
next
  case (Cons a ks)
  obtain bar par where a: "a = (bar, par)" by (cases a)
  have "snd (get param bar par) k = None \<or> snd (get param bar par) k = Some (Fin 0)"
    using Cons.prems by (auto simp: get_def split: option.splits)
  then show ?case
    using Cons.IH [of "snd (get param bar par)"]
      gets_keeps_entry [of "snd (get param bar par)" k "Fin 0" ks] a
    by auto
qed

lemma get_after_gets:
  "fst (get (gets param ks) unit key) = fst (get param unit key)"
proof (cases "param (unit, key)")
  case None
  then show ?thesis
    using gets_new_entry_zero [of param "(unit, key)" ks] by (auto simp: get_def)
next
  case (Some v)
  then show ?thesis
    using gets_keeps_entry [of param "(unit, key)" v ks] by (simp add: get_def)
qed

text \<open>
  C9. The claim: once \<^verbatim>\<open>load\<close> has completed no operation, in particular no sequence
  of \<^verbatim>\<open>get\<close> calls, changes the state of the store. It fails for a \<^verbatim>\<open>get\<close> of a pair that
  was never populated: after the run-range loop for run 100 over a file whose only
  record for bar 1 ends at run 10, \<^verbatim>\<open>get(1, "p0")\<close> leaves a store that differs from the
  loaded one.
\<close>

theorem get_changes_store_counterexample:
  "snd (get (load_pcalib 100
               [(1, [\<lparr>run_start = 1, run_end = 10, payload = (Fin 5, Fin 2)\<rparr>])] Map.empty)
            1 ''p0'')
     \<noteq> load_pcalib 100
          [(1, [\<lparr>run_start = 1, run_end = 10, payload = (Fin 5, Fin 2)\<rparr>])] Map.empty"
proof -
  have "snd (get Map.empty 1 ''p0'') (1, ''p0'') \<noteq> (Map.empty :: param_store) (1, ''p0'')"
    by (simp add: get_def)
  then have "snd (get Map.empty 1 ''p0'') \<noteq> (Map.empty :: param_store)"
    by metis
  then show ?thesis by simp
qed

text \<open>
  C9, as amended. No sequence of \<^verbatim>\<open>get\<close> calls changes the value that any
  \<^verbatim>\<open>get(unit, key)\<close> returns, and no entry the store holds is changed or removed. A \<^verbatim>\<open>get\<close>
  of a populated pair leaves the store as it is; a \<^verbatim>\<open>get\<close> of a pair that was never
  populated adds that pair to the store, with the value 0.
\<close>

theorem gets_observationally_immutable:
  "fst (get (gets param ks) unit key) = fst (get param unit key)
   \<and> (\<forall>v. param (unit, key) = Some v \<longrightarrow>
          gets param ks (unit, key) = Some v \<and> snd (get param unit key) = param)
   \<and> (param (unit, key) = None \<longrightarrow>
          snd (get param unit key) = param((unit, key) \<mapsto> Fin 0))"
  using get_after_gets [of param ks unit key] gets_keeps_entry [of param "(unit, key)" _ ks]
  by (auto simp: get_def)

theorem gets_observationally_immutable_witness:
  "fst (get (gets [(1, ''p0'') \<mapsto> Fin 5] [(2, ''p0''), (1, ''p1''), (1, ''p0'')]) 1 ''p0'')
     = Fin 5
   \<and> gets [(1, ''p0'') \<mapsto> Fin 5] [(2, ''p0''), (1, ''p1''), (1, ''p0'')] (1, ''p0'')
     = Some (Fin 5)
   \<and> snd (get [(1, ''p0'') \<mapsto> Fin 5] 1 ''p0'') = [(1, ''p0'') \<mapsto> Fin 5]
   \<and> fst (get (gets [(1, ''p0'') \<mapsto> Fin 5] [(2, ''p0''), (1, ''p1''), (1, ''p0'')]) 2 ''p1'')
     = Fin 0
   \<and> snd (get [(1, ''p0'') \<mapsto> Fin 5] 2 ''p1'')
     = [(1, ''p0'') \<mapsto> Fin 5, (2, ''p1'') \<mapsto> Fin 0]"
  using gets_observationally_immutable
      [of "[(1, ''p0'') \<mapsto> Fin 5]" "[(2, ''p0''), (1, ''p1''), (1, ''p0'')]" 1 "''p0''"]
    gets_observationally_immutable
      [of "[(1, ''p0'') \<mapsto> Fin 5]" "[(2, ''p0''), (1, ''p1''), (1, ''p0'')]" 2 "''p1''"]
  by (simp add: get_def)

section \<open>Run-range resolution\<close>

lemma load_bar_entry_first:
  assumes "run_start r \<le> run \<and> run \<le> run_end r"
    and "\<forall>e\<in>set pre. \<not> (run_start e \<le> run \<and> run \<le> run_end e)"
  shows "load_bar_entry run b (pre @ r # post) param
         = param((b, ''p0'') \<mapsto> fst (payload r), (b, ''p1'') \<mapsto> snd (payload r))"
  using assms by (simp add: load_bar_entry_skip)

lemma load_pcalib_first:
  assumes "distinct (map fst items)"
    and "(u, pre @ r # post) \<in> set items"
    and "run_start r \<le> run \<and> run \<le> run_end r"
    and "\<forall>e\<in>set pre. \<not> (run_start e \<le> run \<and> run \<le> run_end e)"
  shows "load_pcalib run items param (u, ''p0'') = Some (fst (payload r))
         \<and> load_pcalib run items param (u, ''p1'') = Some (snd (payload r))"
  using assms(1,2)
proof (induction items arbitrary: param)
  case Nil
  then show ?case by simp
next
  case (Cons a items)
  obtain b s where a: "a = (b, s)" by (cases a)
  show ?case
  proof (cases "(u, pre @ r # post) \<in> set items")
    case True
    then show ?thesis using Cons a by simp
  next
    case False
    with Cons.prems a have eq: "b = u" "s = pre @ r # post" by auto
    from Cons.prems a eq have "u \<notin> fst ` set items" by auto
    then show ?thesis
      using a eq load_pcalib_other_bar [of u items run _ _]
        load_bar_entry_first [OF assms(3,4), of u post param]
      by simp
  qed
qed

lemma find_run_range_first:
  assumes "run_start r \<le> run \<and> run \<le> run_end r"
    and "\<forall>e\<in>set pre. \<not> (run_start e \<le> run \<and> run \<le> run_end e)"
  shows "find_run_range run (pre @ r # post) = Some r"
  using assms by (induction pre) auto

lemma find_run_range_none:
  "\<forall>e\<in>set series. \<not> (run_start e \<le> run \<and> run \<le> run_end e) \<Longrightarrow>
   find_run_range run series = None"
  by (induction series) auto

text \<open>
  C3. For every run and unit: when the unit's series is \<open>pre @ r # post\<close>, the range
  of \<open>r\<close> holds the run and no range of a record of \<open>pre\<close> does (so \<open>r\<close> is the first
  record in stored order whose range holds the run, whatever the ranges in \<open>post\<close> are),
  the run-range loop of the position reader's \<^verbatim>\<open>load\<close> resolves the parameters of \<open>r\<close> for
  the unit, given that the file has one series per unit; and \<^verbatim>\<open>get_bar_params\<close> returns
  exactly \<open>r\<close>.
\<close>

theorem load_first_matching_record:
  assumes "run_start r \<le> run \<and> run \<le> run_end r"
    and "\<forall>e\<in>set pre. \<not> (run_start e \<le> run \<and> run \<le> run_end e)"
  shows "(distinct (map fst items) \<and> (u, pre @ r # post) \<in> set items \<longrightarrow>
            load_pcalib run items param (u, ''p0'') = Some (fst (payload r))
            \<and> load_pcalib run items param (u, ''p1'') = Some (snd (payload r)))
         \<and> (database bar = Some (pre' @ r' # post')
            \<and> run_start r' \<le> run \<and> run \<le> run_end r'
            \<and> (\<forall>e\<in>set pre'. \<not> (run_start e \<le> run \<and> run \<le> run_end e)) \<longrightarrow>
            get_bar_params AB database run bar = Inr r')"
  using load_pcalib_first [OF _ _ assms, of items u post param]
    find_run_range_first [of r' run pre' post']
  by (auto simp: get_bar_params_def)

theorem load_first_matching_record_witness:
  "load_pcalib 100
     [(1, [\<lparr>run_start = 1, run_end = 10, payload = (Fin 1, Fin 2)\<rparr>,
           \<lparr>run_start = 50, run_end = 150, payload = (Fin 3, Fin 4)\<rparr>,
           \<lparr>run_start = 90, run_end = 110, payload = (Fin 5, Fin 6)\<rparr>]),
      (2, [\<lparr>run_start = 100, run_end = 100, payload = (Fin 7, Fin 8)\<rparr>])]
     Map.empty (1, ''p0'') = Some (Fin 3)
   \<and> load_pcalib 100
     [(1, [\<lparr>run_start = 1, run_end = 10, payload = (Fin 1, Fin 2)\<rparr>,
           \<lparr>run_start = 50, run_end = 150, payload = (Fin 3, Fin 4)\<rparr>,
           \<lparr>run_start = 90, run_end = 110, payload = (Fin 5, Fin 6)\<rparr>]),
      (2, [\<lparr>run_start = 100, run_end = 100, payload = (Fin 7, Fin 8)\<rparr>])]
     Map.empty (1, ''p1'') = Some (Fin 4)
   \<and> get_bar_params CHR ''B''
        [3 \<mapsto> [\<lparr>run_start = 1, run_end = 10, payload = ''first''\<rparr>,
                \<lparr>run_start = 50, run_end = 150, payload = ''second''\<rparr>,
                \<lparr>run_start = 90, run_end = 110, payload = ''third''\<rparr>]]
        100 3
     = Inr \<lparr>run_start = 50, run_end = 150, payload = ''second''\<rparr>"
  using load_first_matching_record
    [of "\<lparr>run_start = 50, run_end = 150, payload = (Fin 3, Fin 4)\<rparr>" 100
        "[\<lparr>run_start = 1, run_end = 10, payload = (Fin 1, Fin 2)\<rparr>]"
        "[(1, [\<lparr>run_start = 1, run_end = 10, payload = (Fin 1, Fin 2)\<rparr>,
           \<lparr>run_start = 50, run_end = 150, payload = (Fin 3, Fin 4)\<rparr>,
           \<lparr>run_start = 90, run_end = 110, payload = (Fin 5, Fin 6)\<rparr>]),
          (2, [\<lparr>run_start = 100, run_end = 100, payload = (Fin 7, Fin 8)\<rparr>])]"
        1 "[\<lparr>run_start = 90, run_end = 110, payload = (Fin 5, Fin 6)\<rparr>]"
        Map.empty
        "[3 \<mapsto> [\<lparr>run_start = 1, run_end = 10, payload = ''first''\<rparr>,
                \<lparr>run_start = 50, run_end = 150, payload = ''second''\<rparr>,
                \<lparr>run_start = 90, run_end = 110, payload = ''third''\<rparr>]]"
        3 "[\<lparr>run_start = 1, run_end = 10, payload = ''first''\<rparr>]"
        "\<lparr>run_start = 50, run_end = 150, payload = ''second''\<rparr>"
        "[\<lparr>run_start = 90, run_end = 110, payload = ''third''\<rparr>]"
        "CHR ''B''"]
  by simp

section \<open>The fast-versus-total curves\<close>




declare totals_from.simps [simp del]

lemma totals_from_upper: "x \<in> set (totals_from t) \<Longrightarrow> x \<le> 4020"
proof (induction t rule: totals_from.induct)
  case (1 t)
  then show ?case
    by (subst (asm) (2) totals_from.simps) (auto split: if_splits)
qed

lemma totals_from_last_two:
  "\<exists>pre. totals_from (4000 - 20 * real n) = pre @ [4000, 4020]"
proof (induction n)
  case 0
  have "totals_from 4040 = []" by (subst totals_from.simps) simp
  then have "totals_from 4020 = [4020]" by (subst totals_from.simps) simp
  then have "totals_from 4000 = [4000, 4020]" by (subst totals_from.simps) simp
  then show ?case by simp
next
  case (Suc n)
  then obtain pre where pre: "totals_from (4000 - 20 * real n) = pre @ [4000, 4020]" by blast
  have "4000 - 20 * real (Suc n) + 20 = 4000 - 20 * real n" by simp
  then have "totals_from (4000 - 20 * real (Suc n))
             = (4000 - 20 * real (Suc n)) # totals_from (4000 - 20 * real n)"
    by (subst totals_from.simps) simp
  with pre show ?case by simp
qed

lemma totals_last_two: "\<exists>pre. totals = pre @ [Fin 4000, Fin 4020]"
proof -
  obtain pre where "totals_from (4000 - 20 * real 201) = pre @ [4000, 4020]"
    using totals_from_last_two by blast
  then have "totals = map Fin pre @ [Fin 4000, Fin 4020]"
    by (simp add: totals_def)
  then show ?thesis by blast
qed

lemma le_dbl_trans_Fin: "x \<le> Fin a \<Longrightarrow> a \<le> b \<Longrightarrow> x \<le> Fin b"
  by (cases x) auto

lemma two_grid_points_above:
  assumes "x_switch \<le> Fin 4000"
  shows "2 \<le> length (filter (\<lambda>tot. tot \<ge> x_switch) totals)"
proof -
  obtain pre where t: "totals = pre @ [Fin 4000, Fin 4020]"
    using totals_last_two by blast
  have "x_switch \<le> Fin 4020"
    using assms le_dbl_trans_Fin [of x_switch 4000 4020] by simp
  then show ?thesis unfolding t using assms by simp
qed

lemma no_grid_point_above:
  assumes "Fin 4020 < x_switch"
  shows "\<forall>tot\<in>set totals. \<not> tot \<ge> x_switch"
proof
  fix tot assume "tot \<in> set totals"
  then obtain x where "tot = Fin x" "x \<le> 4020"
    using totals_from_upper by (auto simp: totals_def)
  then show "\<not> tot \<ge> x_switch" using assms by (cases x_switch) auto
qed

lemma neutron_fasts_short:
  "length n_cfast = 2 \<Longrightarrow> tot \<in> set ts \<Longrightarrow> tot \<ge> x_switch \<Longrightarrow>
   neutron_fasts x_switch cline n_cfast ts = Inl (VectorOutOfRange n_cfast 2)"
  by (induction ts) (auto simp: get_neutron_linear_params_def)

lemma neutron_fasts_too_short:
  "length n_cfast \<le> 2 \<Longrightarrow> tot \<in> set ts \<Longrightarrow> tot \<ge> x_switch \<Longrightarrow>
   \<exists>e. neutron_fasts x_switch cline n_cfast ts = Inl e"
  by (induction ts) (auto simp: get_neutron_linear_params_def)

lemma get_neutron_linear_params_length:
  "get_neutron_linear_params x_switch quad = Inr lin \<Longrightarrow> length lin = 2"
  by (auto simp: get_neutron_linear_params_def Let_def split: if_splits)

lemma get_neutron_linear_params_defined:
  "3 \<le> length quad \<Longrightarrow> \<exists>lin. get_neutron_linear_params x_switch quad = Inr lin"
  by (auto simp: get_neutron_linear_params_def Let_def)

lemma neutron_fasts_second_call:
  assumes "get_neutron_linear_params x_switch n_cfast = Inr lin"
    and "2 \<le> length (filter (\<lambda>tot. tot \<ge> x_switch) ts)"
  shows "neutron_fasts x_switch cline n_cfast ts = Inl (VectorOutOfRange lin 2)"
  using assms(2)
proof (induction ts)
  case Nil
  then show ?case by simp
next
  case (Cons t ts)
  show ?case
  proof (cases "t \<ge> x_switch")
    case True
    with Cons.prems have "filter (\<lambda>tot. tot \<ge> x_switch) ts \<noteq> []" by auto
    then obtain tot where "tot \<in> set ts" "tot \<ge> x_switch"
      by (auto simp: filter_empty_conv)
    then have "neutron_fasts x_switch cline lin ts = Inl (VectorOutOfRange lin 2)"
      using neutron_fasts_short get_neutron_linear_params_length [OF assms(1)] by blast
    then show ?thesis using True assms(1) by simp
  next
    case False
    then show ?thesis using Cons by simp
  qed
qed

lemma neutron_fasts_fails:
  assumes "2 \<le> length (filter (\<lambda>tot. tot \<ge> x_switch) ts)"
  shows "\<exists>e. neutron_fasts x_switch cline n_cfast ts = Inl e"
proof (cases "3 \<le> length n_cfast")
  case True
  then show ?thesis
    using get_neutron_linear_params_defined [of n_cfast x_switch]
      neutron_fasts_second_call [OF _ assms] by blast
next
  case False
  from assms have "filter (\<lambda>tot. tot \<ge> x_switch) ts \<noteq> []" by auto
  then obtain tot where "tot \<in> set ts" "tot \<ge> x_switch"
    by (auto simp: filter_empty_conv)
  then show ?thesis
    using False neutron_fasts_too_short [of n_cfast tot ts x_switch cline] by simp
qed

lemma neutron_fasts_below:
  "\<forall>tot\<in>set ts. \<not> tot \<ge> x_switch \<Longrightarrow>
   \<exists>fasts. neutron_fasts x_switch cline n_cfast ts = Inr (fasts, n_cfast)"
  by (induction ts) auto

text \<open>
  C10. For every parameter block with at least two points of the sampling grid at or
  above \<^verbatim>\<open>x_switch_neutron\<close>, \<^verbatim>\<open>fast_total_interpolation\<close> ends in an error. When the left
  neutron coefficients are at least three (a quadratic), the first grid point at or above
  the switch replaces them by the two coefficients \<open>lin\<close> of the line, the next such
  grid point calls \<^verbatim>\<open>get_neutron_linear_params\<close> on \<open>lin\<close>, and that call reads index 2 of
  the two-element vector: the error is \<open>VectorOutOfRange lin 2\<close>.
\<close>

theorem neutron_curve_reads_out_of_range:
  assumes "2 \<le> length (filter (\<lambda>tot. tot \<ge> x_switch_neutron params) totals)"
  shows "(\<exists>e. fast_total_interpolation Interpolator params = Inl e)
         \<and> (3 \<le> length (n_cfast_L params) \<longrightarrow>
             (\<exists>lin. get_neutron_linear_params (x_switch_neutron params) (n_cfast_L params) = Inr lin
                \<and> length lin = 2
                \<and> get_neutron_linear_params (x_switch_neutron params) lin
                    = Inl (VectorOutOfRange lin 2)
                \<and> neutron_fasts (x_switch_neutron params) (cline_L params) (n_cfast_L params) totals
                    = Inl (VectorOutOfRange lin 2)
                \<and> fast_total_interpolation Interpolator params = Inl (VectorOutOfRange lin 2)))"
proof
  show "\<exists>e. fast_total_interpolation Interpolator params = Inl e"
    using neutron_fasts_fails [OF assms, of "cline_L params" "n_cfast_L params"]
    by (auto simp: fast_total_interpolation_def)
next
  show "3 \<le> length (n_cfast_L params) \<longrightarrow>
             (\<exists>lin. get_neutron_linear_params (x_switch_neutron params) (n_cfast_L params) = Inr lin
                \<and> length lin = 2
                \<and> get_neutron_linear_params (x_switch_neutron params) lin
                    = Inl (VectorOutOfRange lin 2)
                \<and> neutron_fasts (x_switch_neutron params) (cline_L params) (n_cfast_L params) totals
                    = Inl (VectorOutOfRange lin 2)
                \<and> fast_total_interpolation Interpolator params = Inl (VectorOutOfRange lin 2))"
  proof
    assume "3 \<le> length (n_cfast_L params)"
    then obtain lin where
      lin: "get_neutron_linear_params (x_switch_neutron params) (n_cfast_L params) = Inr lin"
      using get_neutron_linear_params_defined by blast
    have len: "length lin = 2"
      using get_neutron_linear_params_length [OF lin] .
    have again: "get_neutron_linear_params (x_switch_neutron params) lin
                   = Inl (VectorOutOfRange lin 2)"
      using len by (simp add: get_neutron_linear_params_def)
    have loop: "neutron_fasts (x_switch_neutron params) (cline_L params) (n_cfast_L params) totals
                  = Inl (VectorOutOfRange lin 2)"
      using neutron_fasts_second_call [OF lin assms] .
    then have "fast_total_interpolation Interpolator params = Inl (VectorOutOfRange lin 2)"
      by (simp add: fast_total_interpolation_def)
    with lin len again loop show "\<exists>lin. get_neutron_linear_params (x_switch_neutron params) (n_cfast_L params) = Inr lin
                \<and> length lin = 2
                \<and> get_neutron_linear_params (x_switch_neutron params) lin
                    = Inl (VectorOutOfRange lin 2)
                \<and> neutron_fasts (x_switch_neutron params) (cline_L params) (n_cfast_L params) totals
                    = Inl (VectorOutOfRange lin 2)
                \<and> fast_total_interpolation Interpolator params = Inl (VectorOutOfRange lin 2)"
      by blast
  qed
qed

theorem neutron_curve_reads_out_of_range_witness:
  "fast_total_interpolation (\<lambda>xs ys x. Fin 0)
     \<lparr>cline_L = [Fin 0, Fin 1], g_cfast_L = [Fin 0, Fin 0, Fin 0], n_cfast_L = [Fin 1, Fin 2, Fin 3],
      cline_R = [Fin 0, Fin 1], g_cfast_R = [Fin 0, Fin 0, Fin 0], n_cfast_R = [Fin 1, Fin 2, Fin 3],
      x_switch_neutron = Fin 1500,
      centroid_pos_x = [], g_centroid_L = [], n_centroid_L = [], g_centroid_R = [],
      n_centroid_R = [],
      json_pca_mean = [Fin 0, Fin 0], json_pca_components = [[Fin 1, Fin 0], [Fin 0, Fin 1]],
      json_pca_xpeaks = [Fin 0, Fin 1]\<rparr>
   = Inl (VectorOutOfRange [Fin (- 6749999), Fin 9002] 2)"
proof -
  let ?P = "\<lparr>cline_L = [Fin 0, Fin 1], g_cfast_L = [Fin 0, Fin 0, Fin 0], n_cfast_L = [Fin 1, Fin 2, Fin 3],
      cline_R = [Fin 0, Fin 1], g_cfast_R = [Fin 0, Fin 0, Fin 0], n_cfast_R = [Fin 1, Fin 2, Fin 3],
      x_switch_neutron = Fin 1500,
      centroid_pos_x = [], g_centroid_L = [], n_centroid_L = [], g_centroid_R = [],
      n_centroid_R = [],
      json_pca_mean = [Fin 0, Fin 0], json_pca_components = [[Fin 1, Fin 0], [Fin 0, Fin 1]],
      json_pca_xpeaks = [Fin 0, Fin 1]\<rparr>"
  have grid: "2 \<le> length (filter (\<lambda>tot. tot \<ge> x_switch_neutron ?P) totals)"
    using two_grid_points_above [of "Fin 1500"] by simp
  have lin: "get_neutron_linear_params (Fin 1500) [Fin 1, Fin 2, Fin 3]
               = Inr [Fin (- 6749999), Fin 9002]"
    by (simp add: get_neutron_linear_params_def minus_dbl_def numeral_2_eq_2 round_double_eval)
  show ?thesis
    using neutron_curve_reads_out_of_range [OF grid, of "\<lambda>xs ys x. Fin 0"] lin by simp
qed

section \<open>A run that no record covers\<close>

lemma load_bar_info_no_match:
  "\<forall>e\<in>set series. \<not> (run_start e \<le> run \<and> run \<le> run_end e) \<Longrightarrow>
   load_bar_info run b series t = (False, t)"
  by (induction series) auto

lemma load_bar_info_first:
  assumes "run_start r \<le> run \<and> run \<le> run_end r"
    and "\<forall>e\<in>set pre. \<not> (run_start e \<le> run \<and> run \<le> run_end e)"
  shows "load_bar_info run b (pre @ r # post) t = (True, t(b \<mapsto> payload r))"
  using assms by (induction pre) auto

lemma load_bar_info_other_bar:
  "b' \<noteq> b \<Longrightarrow> snd (load_bar_info run b series t) b' = t b'"
  by (induction series) auto

lemma tof_load_other_bar:
  "u \<notin> fst ` set items \<Longrightarrow> fst (tof_load AB run items (t, cerr)) u = t u"
proof (induction items arbitrary: t cerr)
  case Nil
  then show ?case by simp
next
  case (Cons a items)
  obtain b s where a: "a = (b, s)" by (cases a)
  obtain found t' where l: "load_bar_info run b s t = (found, t')"
    by (cases "load_bar_info run b s t")
  from Cons.prems a have "b \<noteq> u" "u \<notin> fst ` set items" by auto
  then show ?case
    using Cons.IH [of t'] load_bar_info_other_bar [of u b run s t] a l by simp
qed

lemma tof_load_keeps_messages:
  "set cerr \<subseteq> set (snd (tof_load AB run items (t, cerr)))"
proof (induction items arbitrary: t cerr)
  case Nil
  then show ?case by simp
next
  case (Cons a items)
  obtain b s where a: "a = (b, s)" by (cases a)
  obtain found t' where l: "load_bar_info run b s t = (found, t')"
    by (cases "load_bar_info run b s t")
  show ?case
    using Cons.IH [of "if found then cerr else cerr @ [TofRunNotFound run AB b]" t'] a l
    by (auto split: if_splits)
qed

lemma tof_load_not_found:
  assumes "distinct (map fst items)"
    and "(u, series) \<in> set items"
    and "\<forall>e\<in>set series. \<not> (run_start e \<le> run \<and> run \<le> run_end e)"
  shows "TofRunNotFound run AB u \<in> set (snd (tof_load AB run items (t, cerr)))
         \<and> fst (tof_load AB run items (t, cerr)) u = t u"
  using assms(1,2)
proof (induction items arbitrary: t cerr)
  case Nil
  then show ?case by simp
next
  case (Cons a items)
  obtain b s where a: "a = (b, s)" by (cases a)
  obtain found t' where l: "load_bar_info run b s t = (found, t')"
    by (cases "load_bar_info run b s t")
  show ?case
  proof (cases "(u, series) \<in> set items")
    case True
    with Cons.prems a have "b \<noteq> u" by force
    then have "t' u = t u" using load_bar_info_other_bar [of u b run s t] l by simp
    then show ?thesis
      using Cons.IH [OF _ True, of t' "if found then cerr else cerr @ [TofRunNotFound run AB b]"]
        Cons.prems a l by simp
  next
    case False
    with Cons.prems a have eq: "b = u" "s = series" by auto
    from Cons.prems a eq have notin: "u \<notin> fst ` set items" by auto
    have l': "found = False" "t' = t"
      using l eq load_bar_info_no_match [OF assms(3), of u t] by auto
    show ?thesis
      using a l l' eq tof_load_other_bar [OF notin, of AB run t "cerr @ [TofRunNotFound run AB u]"]
        tof_load_keeps_messages [of "cerr @ [TofRunNotFound run AB u]" AB run items t]
      by auto
  qed
qed

lemma tof_load_first:
  assumes "distinct (map fst items)"
    and "(u, pre @ r # post) \<in> set items"
    and "run_start r \<le> run \<and> run \<le> run_end r"
    and "\<forall>e\<in>set pre. \<not> (run_start e \<le> run \<and> run \<le> run_end e)"
  shows "fst (tof_load AB run items (t, cerr)) u = Some (payload r)"
  using assms(1,2)
proof (induction items arbitrary: t cerr)
  case Nil
  then show ?case by simp
next
  case (Cons a items)
  obtain b s where a: "a = (b, s)" by (cases a)
  obtain found t' where l: "load_bar_info run b s t = (found, t')"
    by (cases "load_bar_info run b s t")
  show ?case
  proof (cases "(u, pre @ r # post) \<in> set items")
    case True
    then show ?thesis
      using Cons.IH [OF _ True, of t' "if found then cerr else cerr @ [TofRunNotFound run AB b]"]
        Cons.prems a l by simp
  next
    case False
    with Cons.prems a have eq: "b = u" "s = pre @ r # post" by auto
    from Cons.prems a eq have notin: "u \<notin> fst ` set items" by auto
    have l': "found = True" "t' = t(u \<mapsto> payload r)"
      using l eq load_bar_info_first [OF assms(3,4), of u post t] by auto
    show ?thesis
      using a l l' eq tof_load_other_bar [OF notin, of AB run "t(u \<mapsto> payload r)" cerr]
      by simp
  qed
qed

lemma get_bar_params_not_covered:
  "\<forall>e\<in>set (case database bar of None \<Rightarrow> [] | Some s \<Rightarrow> s).
      \<not> (run_start e \<le> run \<and> run \<le> run_end e) \<Longrightarrow>
   get_bar_params AB database run bar = Inl (Exit 1 (PsdCannotFindRun run AB bar))"
  by (simp add: get_bar_params_def find_run_range_none)

lemma load_bars_fails:
  "bar \<in> set bars \<Longrightarrow> get_bar_params AB database run bar = Inl e0 \<Longrightarrow>
   \<exists>e. load_bars Interpolator AB database run bars reader = Inl e"
  by (induction bars arbitrary: reader) (auto split: sum.splits)

lemma load_bars_first_failure:
  "\<forall>b\<in>set pre. \<exists>p m. get_bar_params AB database run b = Inr p
       \<and> build_bar Interpolator (payload p) = Inr m \<Longrightarrow>
   get_bar_params AB database run bar = Inl e0 \<Longrightarrow>
   load_bars Interpolator AB database run (pre @ bar # post) reader = Inl e0"
  by (induction pre arbitrary: reader) (auto split: sum.splits)

lemma build_bar_defined:
  assumes "Fin 4020 < x_switch_neutron params"
    and "length (centroid_pos_x params) \<le> length (g_centroid_L params)"
    and "length (centroid_pos_x params) \<le> length (n_centroid_L params)"
    and "length (centroid_pos_x params) \<le> length (g_centroid_R params)"
    and "length (centroid_pos_x params) \<le> length (n_centroid_R params)"
    and "\<exists>v. process_pca params = Inr v"
  shows "\<exists>m. build_bar Interpolator params = Inr m"
proof -
  have above: "\<forall>tot\<in>set totals. \<not> tot \<ge> x_switch_neutron params"
    using no_grid_point_above [OF assms(1)] .
  obtain fl where fl: "neutron_fasts (x_switch_neutron params) (cline_L params)
                         (n_cfast_L params) totals = Inr (fl, n_cfast_L params)"
    using neutron_fasts_below [OF above] by blast
  obtain fr where fr: "neutron_fasts (x_switch_neutron params) (cline_R params)
                         (n_cfast_R params) totals = Inr (fr, n_cfast_R params)"
    using neutron_fasts_below [OF above] by blast
  obtain curves where ft: "fast_total_interpolation Interpolator params = Inr (curves, params)"
    using fl fr by (simp add: fast_total_interpolation_def)
  obtain c where c: "centroid_interpolation Interpolator params = Inr c"
    using assms(2-5) by (simp add: centroid_interpolation_def json_doubles_def Let_def)
  obtain v where v: "process_pca params = Inr v"
    using assms(6) by blast
  show ?thesis
    using ft c v by (auto simp: build_bar_def split: prod.splits)
qed

text \<open>
  C8. When no record of a bar covers the run, the outcome depends on the reader.
  The pulse shape discrimination reader: \<^verbatim>\<open>get_bar_params\<close> exits with status 1 after the
  message naming the run and the bar; \<^verbatim>\<open>load\<close> never returns a reader when this holds of
  one of the bars 1 to 24, and it ends in that exit when the bars before it were loaded.
  The time-of-flight reader: \<^verbatim>\<open>load\<close> returns; the message naming the run and the bar is
  on the error stream, the offset of the bar is what it was before, and every other bar
  of the file with a record that covers the run has the offset of its first such record.
\<close>

theorem run_not_covered_policy:
  "((\<forall>series. database bar = Some series \<longrightarrow>
        (\<forall>e\<in>set series. \<not> (run_start e \<le> run \<and> run \<le> run_end e))) \<longrightarrow>
      get_bar_params AB database run bar = Inl (Exit 1 (PsdCannotFindRun run AB bar))
      \<and> (bar \<in> {1..24} \<longrightarrow>
           (\<exists>e. psd_load Interpolator AB (Some database) run reader = Inl e)
           \<and> ((\<forall>b\<in>{1..<bar}. \<exists>p m. get_bar_params AB database run b = Inr p
                    \<and> build_bar Interpolator (payload p) = Inr m) \<longrightarrow>
              psd_load Interpolator AB (Some database) run reader
                = Inl (Exit 1 (PsdCannotFindRun run AB bar)))))
   \<and> (distinct (map fst items) \<and> (u, tof_series) \<in> set items
       \<and> (\<forall>e\<in>set tof_series. \<not> (run_start e \<le> run \<and> run \<le> run_end e)) \<longrightarrow>
      TofRunNotFound run AB u \<in> set (snd (tof_load AB run items (tof_offset, cerr)))
      \<and> fst (tof_load AB run items (tof_offset, cerr)) u = tof_offset u
      \<and> (\<forall>u' pre r post.
            (u', pre @ r # post) \<in> set items
            \<and> run_start r \<le> run \<and> run \<le> run_end r
            \<and> (\<forall>e\<in>set pre. \<not> (run_start e \<le> run \<and> run \<le> run_end e)) \<longrightarrow>
            fst (tof_load AB run items (tof_offset, cerr)) u' = Some (payload r)))"
proof (intro conjI impI)
  assume h: "\<forall>series. database bar = Some series \<longrightarrow>
        (\<forall>e\<in>set series. \<not> (run_start e \<le> run \<and> run \<le> run_end e))"
  then have "\<forall>e\<in>set (case database bar of None \<Rightarrow> [] | Some s \<Rightarrow> s).
      \<not> (run_start e \<le> run \<and> run \<le> run_end e)"
    by (cases "database bar") auto
  then show g: "get_bar_params AB database run bar = Inl (Exit 1 (PsdCannotFindRun run AB bar))"
    by (rule get_bar_params_not_covered)
  {
    assume b: "bar \<in> {1..24}"
    then have "bar \<in> set [1..24]" by simp
    then show "\<exists>e. psd_load Interpolator AB (Some database) run reader = Inl e"
      using load_bars_fails [OF _ g] by (simp add: psd_load_def)
    assume ok: "\<forall>b\<in>{1..<bar}. \<exists>p m. get_bar_params AB database run b = Inr p
                    \<and> build_bar Interpolator (payload p) = Inr m"
    have split: "[1..24] = [1..bar - 1] @ bar # [bar + 1..24]"
      using b upto_split3 [of 1 bar 24] by simp
    have "\<forall>b\<in>set [1..bar - 1]. \<exists>p m. get_bar_params AB database run b = Inr p
                    \<and> build_bar Interpolator (payload p) = Inr m"
      using ok by auto
    then show "psd_load Interpolator AB (Some database) run reader
                = Inl (Exit 1 (PsdCannotFindRun run AB bar))"
      using load_bars_first_failure [OF _ g, of "[1..bar - 1]" Interpolator "[bar + 1..24]" reader]
      unfolding psd_load_def split [symmetric] by simp
  }
next
  assume h: "distinct (map fst items) \<and> (u, tof_series) \<in> set items
       \<and> (\<forall>e\<in>set tof_series. \<not> (run_start e \<le> run \<and> run \<le> run_end e))"
  then show "TofRunNotFound run AB u \<in> set (snd (tof_load AB run items (tof_offset, cerr)))"
    and "fst (tof_load AB run items (tof_offset, cerr)) u = tof_offset u"
    using tof_load_not_found [of items u tof_series run AB tof_offset cerr] by auto
  from h show "\<forall>u' pre r post.
            (u', pre @ r # post) \<in> set items
            \<and> run_start r \<le> run \<and> run \<le> run_end r
            \<and> (\<forall>e\<in>set pre. \<not> (run_start e \<le> run \<and> run \<le> run_end e)) \<longrightarrow>
            fst (tof_load AB run items (tof_offset, cerr)) u' = Some (payload r)"
    using tof_load_first [of items _ _ _ _ run AB tof_offset cerr] by blast
qed

theorem run_not_covered_policy_witness:
  "psd_load (\<lambda>xs ys x. Fin 0) CHR ''B''
     (Some [1 \<mapsto> [\<lparr>run_start = 1, run_end = 200, payload =
               \<lparr>cline_L = [Fin 0, Fin 1], g_cfast_L = [Fin 0, Fin 0, Fin 0],
                n_cfast_L = [Fin 1, Fin 2, Fin 3],
                cline_R = [Fin 0, Fin 1], g_cfast_R = [Fin 0, Fin 0, Fin 0],
                n_cfast_R = [Fin 1, Fin 2, Fin 3],
                x_switch_neutron = Fin 5000,
                centroid_pos_x = [Fin (- 100), Fin 100],
                g_centroid_L = [Fin 0, Fin 0], n_centroid_L = [Fin 1, Fin 1],
                g_centroid_R = [Fin 0, Fin 0], n_centroid_R = [Fin 1, Fin 1],
                json_pca_mean = [Fin 0, Fin 0],
                json_pca_components = [[Fin 1, Fin 0], [Fin 0, Fin 1]],
                json_pca_xpeaks = [Fin 0, Fin 1]\<rparr>\<rparr>]])
     100 Map.empty
   = Inl (Exit 1 (PsdCannotFindRun 100 CHR ''B'' 2))
   \<and> tof_load CHR ''B'' 100
        [(1, [\<lparr>run_start = 1, run_end = 10, payload = Fin 3\<rparr>]),
         (2, [\<lparr>run_start = 1, run_end = 10, payload = Fin 4\<rparr>,
              \<lparr>run_start = 50, run_end = 150, payload = Fin 5\<rparr>])]
        (Map.empty, [])
     = ([2 \<mapsto> Fin 5], [TofRunNotFound 100 CHR ''B'' 1])"
proof -
  let ?P = "\<lparr>cline_L = [Fin 0, Fin 1], g_cfast_L = [Fin 0, Fin 0, Fin 0],
                n_cfast_L = [Fin 1, Fin 2, Fin 3],
                cline_R = [Fin 0, Fin 1], g_cfast_R = [Fin 0, Fin 0, Fin 0],
                n_cfast_R = [Fin 1, Fin 2, Fin 3],
                x_switch_neutron = Fin 5000,
                centroid_pos_x = [Fin (- 100), Fin 100],
                g_centroid_L = [Fin 0, Fin 0], n_centroid_L = [Fin 1, Fin 1],
                g_centroid_R = [Fin 0, Fin 0], n_centroid_R = [Fin 1, Fin 1],
                json_pca_mean = [Fin 0, Fin 0],
                json_pca_components = [[Fin 1, Fin 0], [Fin 0, Fin 1]],
                json_pca_xpeaks = [Fin 0, Fin 1]\<rparr>"
  let ?db = "[(1::int) \<mapsto> [\<lparr>run_start = 1, run_end = 200, payload = ?P\<rparr>]]"
  let ?I = "\<lambda>(xs :: dbl list) (ys :: dbl list) (x :: dbl). Fin 0"
  let ?items = "[(1, [\<lparr>run_start = 1, run_end = 10, payload = Fin 3\<rparr>]),
         (2, [\<lparr>run_start = 1, run_end = 10, payload = Fin 4\<rparr>,
              \<lparr>run_start = 50, run_end = 150, payload = Fin 5\<rparr>])]"
  have "\<exists>m. build_bar ?I ?P = Inr m"
    by (rule build_bar_defined) (simp_all add: process_pca_def json_pair_def)
  then have before: "\<forall>b\<in>{1..<2}. \<exists>p m. get_bar_params CHR ''B'' ?db 100 b = Inr p
                    \<and> build_bar ?I (payload p) = Inr m"
    by (auto simp: get_bar_params_def)
  have uncovered: "\<forall>series. ?db 2 = Some series \<longrightarrow>
        (\<forall>e\<in>set series. \<not> (run_start e \<le> 100 \<and> 100 \<le> run_end e))"
    by simp
  have tof: "tof_load CHR ''B'' 100 ?items (Map.empty, [])
     = ([2 \<mapsto> Fin 5], [TofRunNotFound 100 CHR ''B'' 1])"
    by simp
  show ?thesis
    using run_not_covered_policy
      [of ?db 2 100 "CHR ''B''" ?I Map.empty ?items 1
          "[\<lparr>run_start = 1, run_end = 10, payload = Fin 3\<rparr>]" Map.empty "[]"]
      before uncovered tof
    by simp
qed

section \<open>The validity gate and the returned pair\<close>

text \<open>
  C1. For every reader and bar: when one of the four charges is below 0 or above 4097,
  or the position is below -120 or above 120, \<^verbatim>\<open>get_psd\<close> returns the pair
  (-9999, -9999); this holds whatever the reader is, also for a bar without curves, so
  no curve is consulted. Charges of exactly 0 or 4097 and positions of exactly -120 or 120
  pass the gate: the result is that of the curve evaluation.
\<close>

theorem get_psd_validity_gate:
  "(total_L < Fin 0 \<or> total_R < Fin 0 \<or> fast_L < Fin 0 \<or> fast_R < Fin 0
      \<or> total_L > Fin 4097 \<or> total_R > Fin 4097 \<or> fast_L > Fin 4097 \<or> fast_R > Fin 4097
      \<or> pos < Fin (- 120) \<or> pos > Fin 120
    \<longrightarrow> get_psd psd_reader bar total_L total_R fast_L fast_R pos
          = Inr (Fin (- 9999), Fin (- 9999)))
   \<and> (total_L \<in> {Fin 0, Fin 4097} \<and> total_R \<in> {Fin 0, Fin 4097}
      \<and> fast_L \<in> {Fin 0, Fin 4097} \<and> fast_R \<in> {Fin 0, Fin 4097}
      \<and> pos \<in> {Fin (- 120), Fin 120}
    \<longrightarrow> get_psd psd_reader bar total_L total_R fast_L fast_R pos
          = (case psd_reader bar of
               None \<Rightarrow> Inl (NullInterpolator bar)
             | Some m \<Rightarrow> Inr (psd_transform m total_L total_R fast_L fast_R pos)))"
proof (intro conjI impI)
  assume "total_L < Fin 0 \<or> total_R < Fin 0 \<or> fast_L < Fin 0 \<or> fast_R < Fin 0
      \<or> total_L > Fin 4097 \<or> total_R > Fin 4097 \<or> fast_L > Fin 4097 \<or> fast_R > Fin 4097
      \<or> pos < Fin (- 120) \<or> pos > Fin 120"
  then have "bad_data total_L total_R fast_L fast_R pos"
    unfolding bad_data_def .
  then show "get_psd psd_reader bar total_L total_R fast_L fast_R pos
          = Inr (Fin (- 9999), Fin (- 9999))"
    by (simp add: get_psd_def)
next
  assume b: "total_L \<in> {Fin 0, Fin 4097} \<and> total_R \<in> {Fin 0, Fin 4097}
      \<and> fast_L \<in> {Fin 0, Fin 4097} \<and> fast_R \<in> {Fin 0, Fin 4097}
      \<and> pos \<in> {Fin (- 120), Fin 120}"
  then have "\<not> bad_data total_L total_R fast_L fast_R pos"
    unfolding bad_data_def by auto
  then show "get_psd psd_reader bar total_L total_R fast_L fast_R pos
          = (case psd_reader bar of
               None \<Rightarrow> Inl (NullInterpolator bar)
             | Some m \<Rightarrow> Inr (psd_transform m total_L total_R fast_L fast_R pos))"
    by (simp add: get_psd_def)
qed

theorem get_psd_validity_gate_witness:
  "get_psd Map.empty 1 (Fin 4097) (Fin 0) (Fin 0) (Fin 4097) (Fin (120 + 1 / 10000))
     = Inr (Fin (- 9999), Fin (- 9999))
   \<and> get_psd Map.empty 1 (Fin (4097 + 1 / 10000)) (Fin 0) (Fin 0) (Fin 4097) (Fin 120)
     = Inr (Fin (- 9999), Fin (- 9999))
   \<and> get_psd Map.empty 1 (Fin 4097) (Fin 0) (Fin 0) (Fin 4097) (Fin 120)
     = Inl (NullInterpolator 1)
   \<and> get_psd Map.empty 1 (Fin 0) (Fin 4097) (Fin 4097) (Fin 0) (Fin (- 120))
     = Inl (NullInterpolator 1)"
  using get_psd_validity_gate [of "Fin 4097" "Fin 0" "Fin 0" "Fin 4097" "Fin (120 + 1 / 10000)" Map.empty 1]
    get_psd_validity_gate [of "Fin (4097 + 1 / 10000)" "Fin 0" "Fin 0" "Fin 4097" "Fin 120" Map.empty 1]
    get_psd_validity_gate [of "Fin 4097" "Fin 0" "Fin 0" "Fin 4097" "Fin 120" Map.empty 1]
    get_psd_validity_gate [of "Fin 0" "Fin 4097" "Fin 4097" "Fin 0" "Fin (- 120)" Map.empty 1]
  by simp

lemma finite_plusD: "is_finite (a + b) \<Longrightarrow> is_finite a \<and> is_finite b"
  by (cases a; cases b; simp)

lemma finite_minusD: "is_finite (a - b) \<Longrightarrow> is_finite a \<and> is_finite b"
  unfolding minus_dbl_def by (cases a; cases b; simp)

lemma finite_timesD: "is_finite (a * b) \<Longrightarrow> is_finite a \<and> is_finite b"
  by (cases a; cases b; simp split: if_splits)

lemma finite_divideD: "is_finite (a / b) \<Longrightarrow> is_finite a"
  by (cases a; cases b; simp split: if_splits)

lemma divide_by_difference_of_equals: "\<not> is_finite (a / (g - g))"
  unfolding minus_dbl_def by (cases a; cases g; simp)

lemma psd_xy_nonfinite:
  assumes "neutron_fast_total_L m total_L = gamma_fast_total_L m total_L
           \<or> neutron_fast_total_R m total_R = gamma_fast_total_R m total_R"
  shows "\<not> is_finite (fst (psd_xy m total_L total_R fast_L fast_R pos))"
proof
  define vpsd_L where "vpsd_L = (fast_L - gamma_fast_total_L m total_L)
            / (neutron_fast_total_L m total_L - gamma_fast_total_L m total_L)"
  define vpsd_R where "vpsd_R = (fast_R - gamma_fast_total_R m total_R)
            / (neutron_fast_total_R m total_R - gamma_fast_total_R m total_R)"
  have x: "fst (psd_xy m total_L total_R fast_L fast_R pos)
        = ((vpsd_L - gamma_vpsd_L m pos) * (neutron_vpsd_L m pos - gamma_vpsd_L m pos)
           + (vpsd_R - gamma_vpsd_R m pos) * (neutron_vpsd_R m pos - gamma_vpsd_R m pos))
          / ((neutron_vpsd_L m pos - gamma_vpsd_L m pos) * (neutron_vpsd_L m pos - gamma_vpsd_L m pos)
             + (neutron_vpsd_R m pos - gamma_vpsd_R m pos) * (neutron_vpsd_R m pos - gamma_vpsd_R m pos))
          - fst (pca_mean m)"
    by (simp add: psd_xy_def Let_def vpsd_L_def vpsd_R_def)
  assume "is_finite (fst (psd_xy m total_L total_R fast_L fast_R pos))"
  then have "is_finite vpsd_L \<and> is_finite vpsd_R"
    unfolding x
    by (auto dest!: finite_minusD finite_divideD finite_plusD finite_timesD)
  moreover have "\<not> is_finite vpsd_L \<or> \<not> is_finite vpsd_R"
    using assms divide_by_difference_of_equals by (auto simp: vpsd_L_def vpsd_R_def)
  ultimately show False by blast
qed

text \<open>
  C6. For every input that passes the gate, on a bar with curves whose neutron and
  gamma fast-versus-total curves give the same value at the observed total charge of the
  left or of the right side, \<^verbatim>\<open>get_psd\<close> returns a pair (no error), the first component
  of the pair is not finite, and the pair is not the sentinel pair.
\<close>

theorem get_psd_degenerate_nonfinite:
  assumes "\<not> bad_data total_L total_R fast_L fast_R pos"
    and "psd_reader bar = Some m"
    and "neutron_fast_total_L m total_L = gamma_fast_total_L m total_L
         \<or> neutron_fast_total_R m total_R = gamma_fast_total_R m total_R"
  shows "\<exists>ppsd ppsd_perp.
           get_psd psd_reader bar total_L total_R fast_L fast_R pos = Inr (ppsd, ppsd_perp)
           \<and> \<not> is_finite ppsd
           \<and> (ppsd, ppsd_perp) \<noteq> (Fin (- 9999), Fin (- 9999))"
proof -
  obtain x y where xy: "psd_xy m total_L total_R fast_L fast_R pos = (x, y)"
    by (cases "psd_xy m total_L total_R fast_L fast_R pos")
  have "\<not> is_finite x"
    using psd_xy_nonfinite [OF assms(3), of fast_L fast_R pos] xy by simp
  then have nf: "\<not> is_finite ((x - fst (pca_xpeaks m)) / (snd (pca_xpeaks m) - fst (pca_xpeaks m)))"
    by (auto dest!: finite_minusD finite_divideD)
  have "get_psd psd_reader bar total_L total_R fast_L fast_R pos
        = Inr ((x - fst (pca_xpeaks m)) / (snd (pca_xpeaks m) - fst (pca_xpeaks m)), y)"
    using assms(1,2) xy by (simp add: get_psd_def psd_transform_def Let_def)
  with nf show ?thesis by auto
qed

theorem get_psd_degenerate_nonfinite_witness:
  "\<not> bad_data (Fin 1000) (Fin 1000) (Fin 500) (Fin 500) (Fin 0)
   \<and> get_psd
        [1 \<mapsto> \<lparr>gamma_fast_total_L = (\<lambda>t. Fin 400), neutron_fast_total_L = (\<lambda>t. Fin 400),
          gamma_fast_total_R = (\<lambda>t. Fin 400), neutron_fast_total_R = (\<lambda>t. Fin 600),
          gamma_vpsd_L = (\<lambda>p. Fin 0), neutron_vpsd_L = (\<lambda>p. Fin 1),
          gamma_vpsd_R = (\<lambda>p. Fin 0), neutron_vpsd_R = (\<lambda>p. Fin 1),
          pca_mean = (Fin 0, Fin 0), pca_components = ((Fin 1, Fin 0), (Fin 0, Fin 1)),
          pca_xpeaks = (Fin 0, Fin 1)\<rparr>]
        1 (Fin 1000) (Fin 1000) (Fin 500) (Fin 500) (Fin 0)
      = Inr (PInf, NInf)"
  using get_psd_degenerate_nonfinite
    [of "Fin 1000" "Fin 1000" "Fin 500" "Fin 500" "Fin 0"
      "[1 \<mapsto> \<lparr>gamma_fast_total_L = (\<lambda>t. Fin 400), neutron_fast_total_L = (\<lambda>t. Fin 400),
          gamma_fast_total_R = (\<lambda>t. Fin 400), neutron_fast_total_R = (\<lambda>t. Fin 600),
          gamma_vpsd_L = (\<lambda>p. Fin 0), neutron_vpsd_L = (\<lambda>p. Fin 1),
          gamma_vpsd_R = (\<lambda>p. Fin 0), neutron_vpsd_R = (\<lambda>p. Fin 1),
          pca_mean = (Fin 0, Fin 0), pca_components = ((Fin 1, Fin 0), (Fin 0, Fin 1)),
          pca_xpeaks = (Fin 0, Fin 1)\<rparr>]" 1]
  by (simp add: get_psd_def bad_data_def psd_transform_def psd_xy_def minus_dbl_def
      round_double_eval)

text \<open>
  C7. Replacing the component matrices of the reader by any others leaves the result
  of \<^verbatim>\<open>get_psd\<close> as it is. For an input that passes the gate on a bar with curves, the
  result is formed from the mean-subtracted coordinates \<open>(x, y)\<close> of \<open>psd_xy\<close> alone:
  the first component is \<open>(x - xpeaks[0]) / (xpeaks[1] - xpeaks[0])\<close>, the second is \<open>y\<close>.
\<close>

theorem get_psd_ignores_rotation:
  "get_psd (\<lambda>b. map_option (\<lambda>m. m\<lparr>pca_components := c b\<rparr>) (psd_reader b))
       bar total_L total_R fast_L fast_R pos
     = get_psd psd_reader bar total_L total_R fast_L fast_R pos
   \<and> (\<not> bad_data total_L total_R fast_L fast_R pos \<and> psd_reader bar = Some m \<longrightarrow>
        get_psd psd_reader bar total_L total_R fast_L fast_R pos
          = Inr ((fst (psd_xy m total_L total_R fast_L fast_R pos) - fst (pca_xpeaks m))
                   / (snd (pca_xpeaks m) - fst (pca_xpeaks m)),
                 snd (psd_xy m total_L total_R fast_L fast_R pos)))"
proof
  have xy: "psd_xy (m'\<lparr>pca_components := c'\<rparr>) total_L total_R fast_L fast_R pos
            = psd_xy m' total_L total_R fast_L fast_R pos" for m' c'
    by (simp add: psd_xy_def)
  have "psd_transform (m'\<lparr>pca_components := c'\<rparr>) total_L total_R fast_L fast_R pos
        = psd_transform m' total_L total_R fast_L fast_R pos" for m' c'
    by (simp add: psd_transform_def xy Let_def)
  then show "get_psd (\<lambda>b. map_option (\<lambda>m. m\<lparr>pca_components := c b\<rparr>) (psd_reader b))
       bar total_L total_R fast_L fast_R pos
     = get_psd psd_reader bar total_L total_R fast_L fast_R pos"
    by (cases "psd_reader bar") (simp_all add: get_psd_def)
next
  show "\<not> bad_data total_L total_R fast_L fast_R pos \<and> psd_reader bar = Some m \<longrightarrow>
        get_psd psd_reader bar total_L total_R fast_L fast_R pos
          = Inr ((fst (psd_xy m total_L total_R fast_L fast_R pos) - fst (pca_xpeaks m))
                   / (snd (pca_xpeaks m) - fst (pca_xpeaks m)),
                 snd (psd_xy m total_L total_R fast_L fast_R pos))"
    by (simp add: get_psd_def psd_transform_def Let_def split: prod.splits)
qed

theorem get_psd_ignores_rotation_witness:
  "\<not> bad_data (Fin 1000) (Fin 1000) (Fin 500) (Fin 500) (Fin 0)
   \<and> get_psd
        [1 \<mapsto> \<lparr>gamma_fast_total_L = (\<lambda>t. Fin 400), neutron_fast_total_L = (\<lambda>t. Fin 600),
          gamma_fast_total_R = (\<lambda>t. Fin 400), neutron_fast_total_R = (\<lambda>t. Fin 600),
          gamma_vpsd_L = (\<lambda>p. Fin 0), neutron_vpsd_L = (\<lambda>p. Fin 1),
          gamma_vpsd_R = (\<lambda>p. Fin 0), neutron_vpsd_R = (\<lambda>p. Fin 1),
          pca_mean = (Fin 0, Fin 0), pca_components = ((Fin 1, Fin 0), (Fin 0, Fin 1)),
          pca_xpeaks = (Fin 0, Fin 1)\<rparr>]
        1 (Fin 1000) (Fin 1000) (Fin 500) (Fin 500) (Fin 0)
      = Inr (Fin (1 / 2), Fin 0)
   \<and> get_psd
        [1 \<mapsto> \<lparr>gamma_fast_total_L = (\<lambda>t. Fin 400), neutron_fast_total_L = (\<lambda>t. Fin 600),
          gamma_fast_total_R = (\<lambda>t. Fin 400), neutron_fast_total_R = (\<lambda>t. Fin 600),
          gamma_vpsd_L = (\<lambda>p. Fin 0), neutron_vpsd_L = (\<lambda>p. Fin 1),
          gamma_vpsd_R = (\<lambda>p. Fin 0), neutron_vpsd_R = (\<lambda>p. Fin 1),
          pca_mean = (Fin 0, Fin 0), pca_components = ((Fin 0, Fin (- 1)), (Fin 1, Fin 0)),
          pca_xpeaks = (Fin 0, Fin 1)\<rparr>]
        1 (Fin 1000) (Fin 1000) (Fin 500) (Fin 500) (Fin 0)
      = Inr (Fin (1 / 2), Fin 0)"
proof -
  let ?m = "\<lparr>gamma_fast_total_L = (\<lambda>t. Fin 400), neutron_fast_total_L = (\<lambda>t. Fin 600),
          gamma_fast_total_R = (\<lambda>t. Fin 400), neutron_fast_total_R = (\<lambda>t. Fin 600),
          gamma_vpsd_L = (\<lambda>p. Fin 0), neutron_vpsd_L = (\<lambda>p. Fin 1),
          gamma_vpsd_R = (\<lambda>p. Fin 0), neutron_vpsd_R = (\<lambda>p. Fin 1),
          pca_mean = (Fin 0, Fin 0), pca_components = ((Fin 1, Fin 0), (Fin 0, Fin 1)),
          pca_xpeaks = (Fin 0, Fin 1)\<rparr>"
  have r: "(\<lambda>b. map_option (\<lambda>m. m\<lparr>pca_components := ((Fin 0, Fin (- 1)), (Fin 1, Fin 0))\<rparr>)
                  ([1 \<mapsto> ?m] b))
           = [1 \<mapsto> ?m\<lparr>pca_components := ((Fin 0, Fin (- 1)), (Fin 1, Fin 0))\<rparr>]"
    by (rule ext) simp
  have g: "\<not> bad_data (Fin 1000) (Fin 1000) (Fin 500) (Fin 500) (Fin 0)"
    by (simp add: bad_data_def)
  have x: "psd_xy ?m (Fin 1000) (Fin 1000) (Fin 500) (Fin 500) (Fin 0) = (Fin (1 / 2), Fin 0)"
    by (simp add: psd_xy_def minus_dbl_def round_double_eval)
  show ?thesis
    using get_psd_ignores_rotation
      [of "\<lambda>b. ((Fin 0, Fin (- 1)), (Fin 1, Fin 0))" "[1 \<mapsto> ?m]" 1
          "Fin 1000" "Fin 1000" "Fin 500" "Fin 500" "Fin 0" ?m]
    unfolding r using g x by (simp add: minus_dbl_def round_double_eval)
qed

end
